theory Spec2Isabelle
  imports Main "HOL-Library.AList" "HOL-Library.Multiset" "HOL-Library.Char_ord"
    "HOL-Library.List_Lexorder"
begin

section \<open>Domain types (main.go, lines 27-52)\<close>

text \<open>
  A \<open>time.Time\<close> in UTC is an integer number of ticks counted from Go's zero time, in
  the resolution the document store keeps; the zero value of \<open>time.Time\<close> is \<open>0\<close>.
  A Go \<open>*string\<close> is a \<open>string option\<close>: \<open>None\<close> is the nil pointer.
\<close>

type_synonym Time = int

record Item =
  ID :: string
  Name :: string
  Quantity :: "string option"
  CreatedAt :: Time

record ItemInput =
  ID :: "string option"
  Name :: string
  Quantity :: "string option"

record ListItemsResponse =
  Items :: "Item list"

record UpsertItemRequest =
  ID :: "string option"
  Name :: string
  Quantity :: "string option"


section \<open>The remote document store\<close>

text \<open>
  The Firestore client library is not part of the repository. The service uses five of
  its calls on one collection: \<open>Documents(ctx).GetAll()\<close>, \<open>Doc(id).Create\<close>,
  \<open>Doc(id).Update\<close>, \<open>Doc(id).Delete\<close> and \<open>DocumentSnapshot.DataTo\<close>. They are
  modelled here by their documented contract:
  \<^item> a document is a list of named fields holding dynamically typed values;
  \<^item> the collection is the list of its documents, each with its reference id, in the
    order in which the store lists them: by document name, which for the documents of
    one collection is the order of their ids as byte strings (the order of \<open>string\<close>
    here). A created document is put at its place in that order;
  \<^item> \<open>Create\<close> fails with \<open>AlreadyExists\<close> when the id is taken, \<open>Update\<close> fails with
    \<open>NotFound\<close> when it is not and otherwise sets the listed fields only, \<open>Delete\<close>
    of an id that is not there succeeds;
  \<^item> every call is one round trip that may fail for an infrastructure reason (network,
    service, expiry of the call's deadline). Whether the coming round trips fail is
    given by the list \<open>outages\<close> of the world, one entry per round trip, consumed
    from the front; an exhausted list means no failure. A failed round trip leaves
    the collection as it was.
  The warnings written by \<open>log.Printf\<close> are collected in \<open>logged\<close>.
\<close>

datatype fvalue =
    NullValue
  | StringValue string
  | TimestampValue Time
  | IntegerValue int

type_synonym document = "(string \<times> fvalue) list"

type_synonym collection = "(string \<times> document) list"

datatype status = NotFound | AlreadyExists | Unavailable

text \<open>An \<open>error\<close> value: a status of the store, or \<open>fmt.Errorf("<prefix>%w", err)\<close>.\<close>

datatype error =
    Status status
  | Errorf string error

datatype log_line = WarnUnmarshal string

record world =
  docs :: collection
  outages :: "bool list"
  logged :: "log_line list"

definition round_trip :: "world \<Rightarrow> bool \<times> world" where
  "round_trip w =
     (case outages w of
        [] \<Rightarrow> (False, w)
      | down # rest \<Rightarrow> (down, w\<lparr>outages := rest\<rparr>))"

text \<open>Whether the coming round trip fails, and the world once it is over.\<close>

definition fails :: "world \<Rightarrow> bool" where
  "fails w = fst (round_trip w)"

definition consumed :: "world \<Rightarrow> world" where
  "consumed w = snd (round_trip w)"

definition GetAll :: "world \<Rightarrow> (error + (string \<times> document) list) \<times> world" where
  "GetAll w =
     (case round_trip w of
        (down, w') \<Rightarrow>
          if down then (Inl (Status Unavailable), w')
          else (Inr (docs w'), w'))"

definition Create :: "string \<Rightarrow> document \<Rightarrow> world \<Rightarrow> (error + unit) \<times> world" where
  "Create ref d w =
     (case round_trip w of
        (down, w') \<Rightarrow>
          if down then (Inl (Status Unavailable), w')
          else if ref \<in> set (map fst (docs w')) then (Inl (Status AlreadyExists), w')
          else (Inr (), w'\<lparr>docs := insort_key fst (ref, d) (docs w')\<rparr>))"

definition set_fields :: "(string \<times> fvalue) list \<Rightarrow> document \<Rightarrow> document" where
  "set_fields updates d = AList.updates (map fst updates) (map snd updates) d"

definition Update :: "string \<Rightarrow> (string \<times> fvalue) list \<Rightarrow> world \<Rightarrow> (error + unit) \<times> world" where
  "Update ref updates w =
     (case round_trip w of
        (down, w') \<Rightarrow>
          if down then (Inl (Status Unavailable), w')
          else if ref \<notin> set (map fst (docs w')) then (Inl (Status NotFound), w')
          else (Inr (), w'\<lparr>docs :=
                  map (\<lambda>(k, d). if k = ref then (k, set_fields updates d) else (k, d)) (docs w')\<rparr>))"

definition Delete :: "string \<Rightarrow> world \<Rightarrow> (error + unit) \<times> world" where
  "Delete ref w =
     (case round_trip w of
        (down, w') \<Rightarrow>
          if down then (Inl (Status Unavailable), w')
          else (Inr (), w'\<lparr>docs := filter (\<lambda>(k, d). k \<noteq> ref) (docs w')\<rparr>))"

text \<open>
  The fields \<open>Create\<close> writes for an \<open>Item\<close>, by the struct tags of lines 29-32:
  \<open>quantity\<close> is tagged \<open>omitempty\<close>, so a nil pointer writes no field.
\<close>

definition Item_fields :: "Item \<Rightarrow> document" where
  "Item_fields it =
     [(''id'', StringValue (Item.ID it)), (''name'', StringValue (Item.Name it))]
     @ (case Item.Quantity it of None \<Rightarrow> [] | Some q \<Rightarrow> [(''quantity'', StringValue q)])
     @ [(''created_at'', TimestampValue (CreatedAt it))]"

text \<open>
  \<open>DataTo\<close> populates an \<open>Item\<close> from the fields present in the document: a field
  that is missing or null leaves the struct field at its zero value, a value of
  another kind than the struct field's is an error (\<open>None\<close>), fields the struct does
  not have are ignored. A struct field takes the document field of exactly its name
  when there is one, and otherwise a document field whose name differs from it in the
  case of letters only (the first such field of the document, where the library takes
  the one its iteration meets first).
\<close>

definition lower :: "char \<Rightarrow> char" where
  "lower c =
     (case map_of (zip ''ABCDEFGHIJKLMNOPQRSTUVWXYZ'' ''abcdefghijklmnopqrstuvwxyz'') c of
        None \<Rightarrow> c
      | Some l \<Rightarrow> l)"

definition field :: "document \<Rightarrow> string \<Rightarrow> fvalue option" where
  "field d name =
     (case map_of d name of
        Some v \<Rightarrow> Some v
      | None \<Rightarrow> map_of (map (\<lambda>(k, v). (map lower k, v)) d) name)"

definition to_string :: "fvalue option \<Rightarrow> string option" where
  "to_string v =
     (case v of
        None \<Rightarrow> Some []
      | Some NullValue \<Rightarrow> Some []
      | Some (StringValue s) \<Rightarrow> Some s
      | Some _ \<Rightarrow> None)"

definition to_string_ptr :: "fvalue option \<Rightarrow> string option option" where
  "to_string_ptr v =
     (case v of
        None \<Rightarrow> Some None
      | Some NullValue \<Rightarrow> Some None
      | Some (StringValue s) \<Rightarrow> Some (Some s)
      | Some _ \<Rightarrow> None)"

definition to_time :: "fvalue option \<Rightarrow> Time option" where
  "to_time v =
     (case v of
        None \<Rightarrow> Some 0
      | Some NullValue \<Rightarrow> Some 0
      | Some (TimestampValue t) \<Rightarrow> Some t
      | Some _ \<Rightarrow> None)"

definition DataTo :: "document \<Rightarrow> Item option" where
  "DataTo d =
     (case to_string (field d ''id'') of
        None \<Rightarrow> None
      | Some i \<Rightarrow>
     (case to_string (field d ''name'') of
        None \<Rightarrow> None
      | Some n \<Rightarrow>
     (case to_string_ptr (field d ''quantity'') of
        None \<Rightarrow> None
      | Some q \<Rightarrow>
     (case to_time (field d ''created_at'') of
        None \<Rightarrow> None
      | Some t \<Rightarrow> Some \<lparr>Item.ID = i, Item.Name = n, Item.Quantity = q, CreatedAt = t\<rparr>))))"

text \<open>
  The specification's reading of a listing: the documents that decode, in the order of
  the store, and the references of those that do not.
\<close>

definition decoded :: "collection \<Rightarrow> Item list" where
  "decoded ds = List.map_filter (\<lambda>(ref, d). DataTo d) ds"

definition undecodable :: "collection \<Rightarrow> string list" where
  "undecodable ds = map fst (filter (\<lambda>(ref, d). DataTo d = None) ds)"

text \<open>
  A collection written by this program alone: references are unique and every document
  carries its reference in the field \<open>id\<close>.
\<close>

definition well_formed :: "collection \<Rightarrow> bool" where
  "well_formed ds \<longleftrightarrow>
     distinct (map fst ds) \<and> list_all (\<lambda>(ref, d). map_of d ''id'' = Some (StringValue ref)) ds"


section \<open>ShoppingListService (main.go, lines 100-160)\<close>

text \<open>The loop of \<open>ListItems\<close>, lines 107-115: \<open>items\<close> grows by the decoded documents.\<close>

fun decode_loop :: "(string \<times> document) list \<Rightarrow> Item list \<Rightarrow> log_line list
    \<Rightarrow> Item list \<times> log_line list" where
  "decode_loop [] items lg = (items, lg)"
| "decode_loop ((ref, d) # ds) items lg =
     (case DataTo d of
        None \<Rightarrow> decode_loop ds items (lg @ [WarnUnmarshal ref])
      | Some it \<Rightarrow> decode_loop ds (items @ [it]) lg)"

definition ListItems :: "world \<Rightarrow> (error + Item list) \<times> world" where
  "ListItems w =
     (case GetAll w of
        (Inl err, w') \<Rightarrow> (Inl (Errorf ''retrieve items: '' err), w')
      | (Inr ds, w') \<Rightarrow>
          (case decode_loop ds [] (logged w') of
             (items, lg) \<Rightarrow> (Inr items, w'\<lparr>logged := lg\<rparr>)))"

text \<open>
  What \<open>uuid.New().String()\<close> and \<open>time.Now().UTC()\<close> return during one call of
  \<open>UpsertItem\<close> is given to the model from outside.
\<close>

record env =
  uuid_New :: string
  time_Now :: Time

definition UpsertItem :: "env \<Rightarrow> ItemInput \<Rightarrow> world \<Rightarrow> (error + Item list) \<times> world" where
  "UpsertItem e input w =
     (let now = time_Now e;
          create =
            (let ident = uuid_New e;
                 item = \<lparr>Item.ID = ident, Item.Name = ItemInput.Name input,
                         Item.Quantity = ItemInput.Quantity input, CreatedAt = now\<rparr>
             in case Create ident (Item_fields item) w of
                  (Inl err, w') \<Rightarrow> (Inl (Errorf ''create item: '' err), w')
                | (Inr _, w') \<Rightarrow> ListItems w');
          update = (\<lambda>ref.
            (let updates = [(''name'', StringValue (ItemInput.Name input))];
                 updates = (case ItemInput.Quantity input of
                              None \<Rightarrow> updates
                            | Some q \<Rightarrow> updates @ [(''quantity'', StringValue q)])
             in case Update ref updates w of
                  (Inl err, w') \<Rightarrow> (Inl (Errorf ''update item: '' err), w')
                | (Inr _, w') \<Rightarrow> ListItems w'))
      in case ItemInput.ID input of
           None \<Rightarrow> create
         | Some ref \<Rightarrow> if ref = [] then create else update ref)"

definition RemoveItem :: "string \<Rightarrow> world \<Rightarrow> (error + Item list) \<times> world" where
  "RemoveItem ident w =
     (case Delete ident w of
        (Inl err, w') \<Rightarrow> (Inl (Errorf ''delete item: '' err), w')
      | (Inr _, w') \<Rightarrow> ListItems w')"


section \<open>The tool handlers (main.go, lines 218-302, 338-344)\<close>

text \<open>
  The argument bag \<open>req.GetArguments()\<close> is a \<open>map[string]any\<close> of decoded JSON
  values; \<open>args["k"].(string)\<close> succeeds on a string value only (a missing key gives
  the nil interface, on which the assertion fails). \<open>Number\<close> stands for any
  numeric value.
\<close>

datatype any = Null | Bool bool | Number int | String string

type_synonym arguments = "string \<rightharpoonup> any"

definition as_string :: "any option \<Rightarrow> string option" where
  "as_string v = (case v of Some (String s) \<Rightarrow> Some s | _ \<Rightarrow> None)"

text \<open>
  The JSON text produced by \<open>json.Marshal\<close>, as a tree. \<open>JTime t\<close> is the JSON string
  holding \<open>t\<close> in RFC 3339 format. By the struct tags, \<open>quantity\<close> is left out of an
  item when the pointer is nil.
\<close>

datatype json =
    JString string
  | JTime Time
  | JArray "json list"
  | JObject "(string \<times> json) list"

definition Item_json :: "Item \<Rightarrow> json" where
  "Item_json it =
     JObject ([(''id'', JString (Item.ID it)), (''name'', JString (Item.Name it))]
       @ (case Item.Quantity it of None \<Rightarrow> [] | Some q \<Rightarrow> [(''quantity'', JString q)])
       @ [(''created_at'', JTime (CreatedAt it))])"

definition Marshal :: "ListItemsResponse \<Rightarrow> json" where
  "Marshal r = JObject [(''items'', JArray (map Item_json (Items r)))]"

text \<open>An error message: a literal, or \<open>fmt.Sprintf("<prefix>%v", err)\<close>.\<close>

datatype message =
    Text string
  | Sprintf string error

datatype CallToolResult =
    NewToolResultText json
  | NewToolResultError message

definition jsonResult :: "ListItemsResponse \<Rightarrow> CallToolResult" where
  "jsonResult v = NewToolResultText (Marshal v)"

definition quoted :: "string \<Rightarrow> string" where
  "quoted s = [CHR 0x27] @ s @ [CHR 0x27]"

definition list_items :: "world \<Rightarrow> CallToolResult \<times> world" where
  "list_items w =
     (case ListItems w of
        (Inl err, w') \<Rightarrow> (NewToolResultError (Sprintf ''failed to list items: '' err), w')
      | (Inr items, w') \<Rightarrow> (jsonResult \<lparr>Items = items\<rparr>, w'))"

definition upsert_item :: "env \<Rightarrow> arguments \<Rightarrow> world \<Rightarrow> CallToolResult \<times> world" where
  "upsert_item e args w =
     (case as_string (args ''name'') of
        None \<Rightarrow> (NewToolResultError (Text (''invalid or missing '' @ quoted ''name'')), w)
      | Some name \<Rightarrow>
          (let itemReq = \<lparr>UpsertItemRequest.ID = None, Name = name, Quantity = None\<rparr>;
               itemReq = (case as_string (args ''id'') of
                            Some ident \<Rightarrow> if ident \<noteq> [] then itemReq\<lparr>UpsertItemRequest.ID := Some ident\<rparr>
                                       else itemReq
                          | None \<Rightarrow> itemReq);
               itemReq = (case as_string (args ''quantity'') of
                            Some quantity \<Rightarrow>
                              if quantity \<noteq> []
                              then itemReq\<lparr>UpsertItemRequest.Quantity := Some quantity\<rparr>
                              else itemReq
                          | None \<Rightarrow> itemReq)
           in if UpsertItemRequest.Name itemReq = []
              then (NewToolResultError (Text (quoted ''name'' @ '' is required'')), w)
              else
                (case UpsertItem e \<lparr>ItemInput.ID = UpsertItemRequest.ID itemReq,
                                     Name = UpsertItemRequest.Name itemReq,
                                     Quantity = UpsertItemRequest.Quantity itemReq\<rparr> w of
                   (Inl err, w') \<Rightarrow>
                     (NewToolResultError (Sprintf ''failed to upsert item: '' err), w')
                 | (Inr items, w') \<Rightarrow> (jsonResult \<lparr>Items = items\<rparr>, w'))))"

definition remove_item :: "arguments \<Rightarrow> world \<Rightarrow> CallToolResult \<times> world" where
  "remove_item args w =
     (case as_string (args ''id'') of
        None \<Rightarrow> (NewToolResultError (Text (''invalid or missing '' @ quoted ''id'')), w)
      | Some ident \<Rightarrow>
          if ident = []
          then (NewToolResultError (Text (''invalid or missing '' @ quoted ''id'')), w)
          else
            (case RemoveItem ident w of
               (Inl err, w') \<Rightarrow>
                 (NewToolResultError (Sprintf ''failed to remove item: '' err), w')
             | (Inr items, w') \<Rightarrow> (jsonResult \<lparr>Items = items\<rparr>, w')))"

text \<open>
  The coercion the \<open>upsert_item\<close> handler applies to an optional string argument, as
  the specification words it: a value that is missing, not a string or the empty string
  counts as absent.
\<close>

definition non_empty :: "any option \<Rightarrow> string option" where
  "non_empty v =
     (case as_string v of
        None \<Rightarrow> None
      | Some s \<Rightarrow> if s \<noteq> [] then Some s else None)"

text \<open>A tool invocation as the transport delivers it, and a sequence of them.\<close>

datatype call =
    call_list_items
  | call_upsert_item env arguments
  | call_remove_item arguments

fun invoke :: "call \<Rightarrow> world \<Rightarrow> CallToolResult \<times> world" where
  "invoke call_list_items w = list_items w"
| "invoke (call_upsert_item e args) w = upsert_item e args w"
| "invoke (call_remove_item args) w = remove_item args w"

text \<open>The worlds after each invocation of a sequence, in turn.\<close>

fun run :: "call list \<Rightarrow> world \<Rightarrow> world list" where
  "run [] w = []"
| "run (c # cs) w = snd (invoke c w) # run cs (snd (invoke c w))"

text \<open>The quantity stored under a reference, as a listing shows it.\<close>

definition stored_quantity :: "world \<Rightarrow> string \<Rightarrow> string option" where
  "stored_quantity w ref =
     (case map_of (docs w) ref of
        None \<Rightarrow> None
      | Some d \<Rightarrow> (case DataTo d of None \<Rightarrow> None | Some it \<Rightarrow> Item.Quantity it))"


section \<open>The store calls and the service, step by step\<close>

lemma round_trip_eq: "round_trip w = (fails w, consumed w)"
  by (simp add: fails_def consumed_def)

lemma docs_consumed [simp]: "docs (consumed w) = docs w"
  by (simp add: consumed_def round_trip_def split: list.split)

lemma logged_consumed [simp]: "logged (consumed w) = logged w"
  by (simp add: consumed_def round_trip_def split: list.split)

lemma outages_consumed [simp]: "outages (consumed w) = tl (outages w)"
  by (simp add: consumed_def round_trip_def split: list.split)

lemma fails_docs_update [simp]: "fails (w\<lparr>docs := ds\<rparr>) = fails w"
  by (simp add: fails_def round_trip_def split: list.split)

lemma fails_logged_update [simp]: "fails (w\<lparr>logged := lg\<rparr>) = fails w"
  by (simp add: fails_def round_trip_def split: list.split)

lemma decode_loop_eq:
  "decode_loop ds items lg =
     (items @ decoded ds, lg @ map WarnUnmarshal (undecodable ds))"
proof (induction ds arbitrary: items lg)
  case Nil
  show ?case by (simp add: decoded_def undecodable_def)
next
  case (Cons p ds)
  obtain ref d where p: "p = (ref, d)" by (cases p)
  show ?case
    by (cases "DataTo d") (simp_all add: p Cons.IH decoded_def undecodable_def)
qed

lemma ListItems_eq:
  "ListItems w =
     (if fails w then (Inl (Errorf ''retrieve items: '' (Status Unavailable)), consumed w)
      else (Inr (decoded (docs w)),
            (consumed w)\<lparr>logged := logged w @ map WarnUnmarshal (undecodable (docs w))\<rparr>))"
  by (simp add: ListItems_def GetAll_def round_trip_eq decode_loop_eq)

lemma Create_eq:
  "Create ref d w =
     (if fails w then (Inl (Status Unavailable), consumed w)
      else if ref \<in> fst ` set (docs w) then (Inl (Status AlreadyExists), consumed w)
      else (Inr (), (consumed w)\<lparr>docs := insort_key fst (ref, d) (docs w)\<rparr>))"
  by (simp add: Create_def round_trip_eq)

lemma Update_eq:
  "Update ref us w =
     (if fails w then (Inl (Status Unavailable), consumed w)
      else if ref \<notin> fst ` set (docs w) then (Inl (Status NotFound), consumed w)
      else (Inr (), (consumed w)\<lparr>docs :=
              map (\<lambda>(k, d). if k = ref then (k, set_fields us d) else (k, d)) (docs w)\<rparr>))"
  by (simp add: Update_def round_trip_eq)

lemma Delete_eq:
  "Delete ref w =
     (if fails w then (Inl (Status Unavailable), consumed w)
      else (Inr (), (consumed w)\<lparr>docs := filter (\<lambda>(k, d). k \<noteq> ref) (docs w)\<rparr>))"
  by (simp add: Delete_def round_trip_eq)

lemma decoded_append: "decoded (xs @ ys) = decoded xs @ decoded ys"
  by (simp add: decoded_def List.map_filter_def)

lemma DataTo_Item_fields: "DataTo (Item_fields it) = Some it"
  by (cases "Item.Quantity it")
     (simp_all add: DataTo_def field_def lower_def Item_fields_def to_string_def
        to_string_ptr_def to_time_def)

lemma decoded_single: "decoded [(ref, Item_fields it)] = [it]"
  by (simp add: decoded_def DataTo_Item_fields)

lemma UpsertItem_create_eq:
  assumes "ItemInput.ID input = None \<or> ItemInput.ID input = Some []"
  shows "UpsertItem e input w =
     (case Create (uuid_New e)
             (Item_fields \<lparr>Item.ID = uuid_New e, Item.Name = ItemInput.Name input,
                Item.Quantity = ItemInput.Quantity input, CreatedAt = time_Now e\<rparr>) w of
        (Inl err, w') \<Rightarrow> (Inl (Errorf ''create item: '' err), w')
      | (Inr _, w') \<Rightarrow> ListItems w')"
  using assms by (auto simp add: UpsertItem_def Let_def)

lemma UpsertItem_update_eq:
  assumes "ItemInput.ID input = Some ref" and "ref \<noteq> []"
  shows "UpsertItem e input w =
     (case Update ref
             ((''name'', StringValue (ItemInput.Name input))
              # (case ItemInput.Quantity input of None \<Rightarrow> []
                 | Some q \<Rightarrow> [(''quantity'', StringValue q)])) w of
        (Inl err, w') \<Rightarrow> (Inl (Errorf ''update item: '' err), w')
      | (Inr _, w') \<Rightarrow> ListItems w')"
  using assms by (cases "ItemInput.Quantity input") (simp_all add: UpsertItem_def Let_def)

lemma keys_map_upd:
  "map fst (map (\<lambda>(k, d). if k = ref then (k, f d) else (k, d)) ds) = map fst ds"
  by (induction ds) auto


lemma map_of_map_upd:
  "map_of (map (\<lambda>(k, d). if k = ref then (k, f d) else (k, d)) ds) k
   = (if k = ref then map_option f (map_of ds ref) else map_of ds k)"
  by (induction ds) auto

lemma map_of_set_fields:
  "map_of (set_fields us d) = (map_of d)(map fst us [\<mapsto>] map snd us)"
  by (simp add: set_fields_def updates_conv')

lemma DataTo_Some_iff:
  "DataTo d = Some it \<longleftrightarrow>
     to_string (field d ''id'') = Some (Item.ID it)
   \<and> to_string (field d ''name'') = Some (Item.Name it)
   \<and> to_string_ptr (field d ''quantity'') = Some (Item.Quantity it)
   \<and> to_time (field d ''created_at'') = Some (CreatedAt it)"
  by (cases it) (auto simp add: DataTo_def split: option.splits)

lemma to_string_StringValue [simp]: "to_string (Some (StringValue s)) = Some s"
  by (simp add: to_string_def)

lemma to_string_ptr_StringValue [simp]:
  "to_string_ptr (Some (StringValue s)) = Some (Some s)"
  by (simp add: to_string_ptr_def)

lemma field_exact: "map_of d name = Some v \<Longrightarrow> field d name = Some v"
  by (simp add: field_def)

lemma folded_update_other:
  assumes "map lower k = k" and "name \<noteq> k"
  shows "map_of (map (\<lambda>(k, v). (map lower k, v)) (AList.update k v d)) name
         = map_of (map (\<lambda>(k, v). (map lower k, v)) d) name"
  using assms by (induction d) auto

lemma field_update:
  assumes "map lower k = k"
  shows "field (AList.update k v d) name = (if name = k then Some v else field d name)"
  by (auto simp add: field_def update_conv' folded_update_other [OF assms]
      split: option.split)

lemma lower_name: "map lower ''name'' = ''name''"
  by (simp add: lower_def)

lemma lower_quantity: "map lower ''quantity'' = ''quantity''"
  by (simp add: lower_def)

lemma field_set_fields:
  "field (set_fields ((''name'', StringValue n)
            # (case q of None \<Rightarrow> [] | Some v \<Rightarrow> [(''quantity'', StringValue v)])) d) name
   = (if name = ''quantity'' \<and> q \<noteq> None then map_option StringValue q
      else if name = ''name'' then Some (StringValue n)
      else field d name)"
  by (cases q)
     (auto simp add: set_fields_def field_update [OF lower_name]
        field_update [OF lower_quantity])

lemma mset_decoded:
  "mset (decoded ds)
   = image_mset (\<lambda>(ref, d). the (DataTo d))
       (filter_mset (\<lambda>(ref, d). DataTo d \<noteq> None) (mset ds))"
  by (induction ds) (auto simp add: decoded_def split: option.splits)

lemma mset_decoded_insort:
  assumes "DataTo d = Some it"
  shows "mset (decoded (insort_key fst (ref, d) ds)) = add_mset it (mset (decoded ds))"
  by (simp add: mset_decoded assms)

lemma map_of_insort_new:
  "ref \<notin> fst ` set ds \<Longrightarrow> map_of (insort_key fst (ref, d) ds) ref = Some d"
  by (induction ds) auto

lemma map_of_insort_other:
  "k \<noteq> ref \<Longrightarrow> map_of (insort_key fst (ref, d) ds) k = map_of ds k"
  by (induction ds) auto


lemma decoded_set:
  "set (decoded ds) = {it. \<exists>ref d. (ref, d) \<in> set ds \<and> DataTo d = Some it}"
  by (induction ds) (auto simp add: decoded_def split: option.splits)

lemma decoded_length:
  "length (decoded ds) + length (undecodable ds) = length ds"
  by (induction ds) (auto simp add: decoded_def undecodable_def split: option.splits)

lemma decoded_filter:
  "decoded ds = map (\<lambda>(ref, d). the (DataTo d)) (filter (\<lambda>(ref, d). DataTo d \<noteq> None) ds)"
  by (induction ds) (auto simp add: decoded_def split: option.splits)

lemma upsert_item_eq:
  "upsert_item e args w =
     (case as_string (args ''name'') of
        None \<Rightarrow> (NewToolResultError (Text (''invalid or missing '' @ quoted ''name'')), w)
      | Some name \<Rightarrow>
          if name = []
          then (NewToolResultError (Text (quoted ''name'' @ '' is required'')), w)
          else
            (case UpsertItem e \<lparr>ItemInput.ID = non_empty (args ''id''), Name = name,
                                 Quantity = non_empty (args ''quantity'')\<rparr> w of
               (Inl err, w') \<Rightarrow>
                 (NewToolResultError (Sprintf ''failed to upsert item: '' err), w')
             | (Inr items, w') \<Rightarrow> (jsonResult \<lparr>Items = items\<rparr>, w')))"
  by (cases "as_string (args ''name'')"; cases "as_string (args ''id'')";
      cases "as_string (args ''quantity'')")
     (simp_all add: upsert_item_def non_empty_def Let_def)

lemma ListItems_Inr:
  assumes "ListItems wm = (Inr items, w')"
  shows "items = decoded (docs w')" and "docs w' = docs wm" and "\<not> fails wm"
  using assms by (auto simp add: ListItems_eq split: if_splits)

lemma ListItems_again:
  assumes "docs w'' = docs w'" and "\<not> fails w''"
  shows "fst (ListItems w'') = Inr (decoded (docs w'))"
  using assms by (simp add: ListItems_eq)

lemma UpsertItem_Inr:
  assumes "UpsertItem e input w = (Inr items, w')"
  shows "\<exists>wm. ListItems wm = (Inr items, w')
           \<and> (\<exists>r d us. Create r d w = (Inr (), wm) \<or> Update r us w = (Inr (), wm))"
proof (cases "ItemInput.ID input = None \<or> ItemInput.ID input = Some []")
  case True
  let ?d = "Item_fields \<lparr>Item.ID = uuid_New e, Item.Name = ItemInput.Name input,
                Item.Quantity = ItemInput.Quantity input, CreatedAt = time_Now e\<rparr>"
  obtain r wm where c: "Create (uuid_New e) ?d w = (r, wm)"
    by (cases "Create (uuid_New e) ?d w")
  with assms True have "r = Inr ()" and "ListItems wm = (Inr items, w')"
    by (auto simp add: UpsertItem_create_eq split: sum.splits)
  with c show ?thesis by blast
next
  case False
  then obtain ref where ref: "ItemInput.ID input = Some ref" "ref \<noteq> []"
    by (cases "ItemInput.ID input") auto
  let ?us = "(''name'', StringValue (ItemInput.Name input))
              # (case ItemInput.Quantity input of None \<Rightarrow> []
                 | Some q \<Rightarrow> [(''quantity'', StringValue q)])"
  obtain r wm where c: "Update ref ?us w = (r, wm)"
    by (cases "Update ref ?us w")
  with assms have "r = Inr ()" and "ListItems wm = (Inr items, w')"
    by (auto simp add: UpsertItem_update_eq [OF ref] split: sum.splits)
  with c show ?thesis by blast
qed

lemma RemoveItem_Inr:
  assumes "RemoveItem ref w = (Inr items, w')"
  shows "\<exists>wm. Delete ref w = (Inr (), wm) \<and> ListItems wm = (Inr items, w')"
proof -
  obtain r wm where c: "Delete ref w = (r, wm)"
    by (cases "Delete ref w")
  with assms have "r = Inr ()" and "ListItems wm = (Inr items, w')"
    by (auto simp add: RemoveItem_def split: sum.splits)
  with c show ?thesis by blast
qed

lemma upsert_item_Text:
  assumes "upsert_item e args w = (NewToolResultText payload, w')"
  shows "\<exists>input items. UpsertItem e input w = (Inr items, w')
           \<and> payload = Marshal \<lparr>Items = items\<rparr>"
proof -
  from assms obtain name where n: "as_string (args ''name'') = Some name" "name \<noteq> []"
    by (auto simp add: upsert_item_eq split: option.splits if_splits)
  let ?input = "\<lparr>ItemInput.ID = non_empty (args ''id''), Name = name,
                   Quantity = non_empty (args ''quantity'')\<rparr>"
  obtain r wm where u: "UpsertItem e ?input w = (r, wm)"
    by (cases "UpsertItem e ?input w")
  with assms n obtain items where "r = Inr items" "wm = w'"
      "payload = Marshal \<lparr>Items = items\<rparr>"
    by (auto simp add: upsert_item_eq jsonResult_def split: sum.splits)
  with u show ?thesis by blast
qed

lemma remove_item_Text:
  assumes "remove_item args w = (NewToolResultText payload, w')"
  shows "\<exists>ref items. RemoveItem ref w = (Inr items, w')
           \<and> payload = Marshal \<lparr>Items = items\<rparr>"
proof -
  from assms obtain ref where n: "as_string (args ''id'') = Some ref" "ref \<noteq> []"
    by (auto simp add: remove_item_def split: option.splits if_splits)
  obtain r wm where u: "RemoveItem ref w = (r, wm)"
    by (cases "RemoveItem ref w")
  with assms n obtain items where "r = Inr items" "wm = w'"
      "payload = Marshal \<lparr>Items = items\<rparr>"
    by (auto simp add: remove_item_def jsonResult_def split: sum.splits)
  with u show ?thesis by blast
qed

lemma RemoveItem_eq:
  "RemoveItem ref w =
     (if fails w then (Inl (Errorf ''delete item: '' (Status Unavailable)), consumed w)
      else ListItems ((consumed w)\<lparr>docs := filter (\<lambda>(k, d). k \<noteq> ref) (docs w)\<rparr>))"
  by (simp add: RemoveItem_def Delete_eq)

lemma consumed_docs_update [simp]:
  "consumed (w\<lparr>docs := ds\<rparr>) = (consumed w)\<lparr>docs := ds\<rparr>"
  by (simp add: consumed_def round_trip_def split: list.split)

lemma consumed_logged_update [simp]:
  "consumed (w\<lparr>logged := lg\<rparr>) = (consumed w)\<lparr>logged := lg\<rparr>"
  by (simp add: consumed_def round_trip_def split: list.split)

lemma docs_RemoveItem:
  "docs (snd (RemoveItem ref w))
     = (if fails w then docs w else filter (\<lambda>(k, d). k \<noteq> ref) (docs w))"
  by (simp add: RemoveItem_eq ListItems_eq)



lemma well_formed_filter:
  "well_formed ds \<Longrightarrow> well_formed (filter P ds)"
  by (simp add: well_formed_def list_all_iff distinct_map_filter)

lemma docs_list_items: "docs (snd (list_items w)) = docs w"
  by (simp add: list_items_def ListItems_eq)

lemma docs_ListItems: "docs (snd (ListItems w)) = docs w"
  by (simp add: ListItems_eq)

lemma docs_UpsertItem_cases:
  "docs (snd (UpsertItem e input w)) = docs w
   \<or> (uuid_New e \<notin> fst ` set (docs w)
        \<and> docs (snd (UpsertItem e input w))
            = insort_key fst (uuid_New e, Item_fields \<lparr>Item.ID = uuid_New e,
                 Item.Name = ItemInput.Name input, Item.Quantity = ItemInput.Quantity input,
                 CreatedAt = time_Now e\<rparr>) (docs w))
   \<or> (\<exists>ref. docs (snd (UpsertItem e input w))
          = map (\<lambda>(k, d). if k = ref
                   then (k, set_fields ((''name'', StringValue (ItemInput.Name input))
                              # (case ItemInput.Quantity input of None \<Rightarrow> []
                                 | Some q \<Rightarrow> [(''quantity'', StringValue q)])) d)
                   else (k, d)) (docs w))"
proof (cases "ItemInput.ID input = None \<or> ItemInput.ID input = Some []")
  case True
  show ?thesis
    by (simp add: UpsertItem_create_eq [OF True] Create_eq ListItems_eq)
next
  case False
  then obtain ref where ref: "ItemInput.ID input = Some ref" "ref \<noteq> []"
    by (cases "ItemInput.ID input") auto
  show ?thesis
    by (auto simp add: UpsertItem_update_eq [OF ref] Update_eq ListItems_eq)
qed

lemma snd_respond:
  "snd (case p of (Inl err, w') \<Rightarrow> (f err, w') | (Inr items, w') \<Rightarrow> (g items, w')) = snd p"
  by (cases p) (simp split: sum.split)

lemma docs_upsert_item_cases:
  "docs (snd (upsert_item e args w)) = docs w
   \<or> (\<exists>input. docs (snd (upsert_item e args w)) = docs (snd (UpsertItem e input w)))"
proof (cases "as_string (args ''name'')")
  case None
  then show ?thesis by (simp add: upsert_item_eq)
next
  case (Some name)
  show ?thesis
  proof (cases "name = []")
    case True
    with Some show ?thesis by (simp add: upsert_item_eq)
  next
    case False
    with Some have "snd (upsert_item e args w)
        = snd (UpsertItem e \<lparr>ItemInput.ID = non_empty (args ''id''), Name = name,
                               Quantity = non_empty (args ''quantity'')\<rparr> w)"
      by (simp add: upsert_item_eq snd_respond)
    then show ?thesis by metis
  qed
qed

lemma docs_remove_item_cases:
  "docs (snd (remove_item args w)) = docs w
   \<or> (\<exists>ref. docs (snd (remove_item args w)) = filter (\<lambda>(k, d). k \<noteq> ref) (docs w))"
proof (cases "as_string (args ''id'')")
  case None
  then show ?thesis by (simp add: remove_item_def)
next
  case (Some ref)
  show ?thesis
  proof (cases "ref = []")
    case True
    with Some show ?thesis by (simp add: remove_item_def)
  next
    case False
    with Some have "snd (remove_item args w) = snd (RemoveItem ref w)"
      by (simp add: remove_item_def snd_respond)
    then have "docs (snd (remove_item args w))
        = (if fails w then docs w else filter (\<lambda>(k, d). k \<noteq> ref) (docs w))"
      by (simp add: docs_RemoveItem)
    then show ?thesis by (cases "fails w") auto
  qed
qed

lemma invoke_docs_cases:
  "docs (snd (invoke c w)) = docs w
   \<or> (\<exists>it. Item.ID it \<notin> fst ` set (docs w)
          \<and> docs (snd (invoke c w)) = insort_key fst (Item.ID it, Item_fields it) (docs w))
   \<or> (\<exists>ref n q. docs (snd (invoke c w))
          = map (\<lambda>(k, d). if k = ref
                   then (k, set_fields ((''name'', StringValue n)
                              # (case q of None \<Rightarrow> []
                                 | Some v \<Rightarrow> [(''quantity'', StringValue v)])) d)
                   else (k, d)) (docs w))
   \<or> (\<exists>ref. docs (snd (invoke c w)) = filter (\<lambda>(k, d). k \<noteq> ref) (docs w))"
proof (cases c)
  case call_list_items
  then show ?thesis by (simp add: docs_list_items)
next
  case (call_upsert_item e args)
  from docs_upsert_item_cases [of e args w]
  consider "docs (snd (upsert_item e args w)) = docs w"
    | input where "docs (snd (upsert_item e args w)) = docs (snd (UpsertItem e input w))"
    by blast
  then show ?thesis
  proof cases
    case 1
    with call_upsert_item show ?thesis by simp
  next
    case (2 input)
    let ?it = "\<lparr>Item.ID = uuid_New e, Item.Name = ItemInput.Name input,
                 Item.Quantity = ItemInput.Quantity input, CreatedAt = time_Now e\<rparr>"
    from docs_UpsertItem_cases [of e input w]
    consider "docs (snd (UpsertItem e input w)) = docs w"
      | "uuid_New e \<notin> fst ` set (docs w)"
        "docs (snd (UpsertItem e input w))
          = insort_key fst (uuid_New e, Item_fields ?it) (docs w)"
      | ref where "docs (snd (UpsertItem e input w))
          = map (\<lambda>(k, d). if k = ref
                   then (k, set_fields ((''name'', StringValue (ItemInput.Name input))
                              # (case ItemInput.Quantity input of None \<Rightarrow> []
                                 | Some q \<Rightarrow> [(''quantity'', StringValue q)])) d)
                   else (k, d)) (docs w)"
      by blast
    then show ?thesis
    proof cases
      case 1
      with 2 call_upsert_item show ?thesis by simp
    next
      case 2
      then have "Item.ID ?it \<notin> fst ` set (docs w)
          \<and> docs (snd (UpsertItem e input w))
              = insort_key fst (Item.ID ?it, Item_fields ?it) (docs w)"
        by simp
      then have "\<exists>it. Item.ID it \<notin> fst ` set (docs w)
          \<and> docs (snd (UpsertItem e input w))
              = insort_key fst (Item.ID it, Item_fields it) (docs w)"
        by (rule exI)
      with \<open>docs (snd (upsert_item e args w)) = docs (snd (UpsertItem e input w))\<close>
        call_upsert_item show ?thesis by simp
    next
      case (3 ref)
      then have "\<exists>ref n q. docs (snd (UpsertItem e input w))
          = map (\<lambda>(k, d). if k = ref
                   then (k, set_fields ((''name'', StringValue n)
                              # (case q of None \<Rightarrow> []
                                 | Some v \<Rightarrow> [(''quantity'', StringValue v)])) d)
                   else (k, d)) (docs w)"
        by blast
      with \<open>docs (snd (upsert_item e args w)) = docs (snd (UpsertItem e input w))\<close>
        call_upsert_item show ?thesis by simp
    qed
  qed
next
  case (call_remove_item args)
  with docs_remove_item_cases [of args w] show ?thesis by auto
qed

lemma map_of_filter_other:
  "ref \<noteq> r \<Longrightarrow> map_of (filter (\<lambda>(k, d). k \<noteq> r) ds) ref = map_of ds ref"
  by (induction ds) auto

lemma DataTo_set_fields:
  assumes "DataTo d = Some it"
  shows "DataTo (set_fields ((''name'', StringValue n)
            # (case q of None \<Rightarrow> [] | Some v \<Rightarrow> [(''quantity'', StringValue v)])) d)
         = Some (it\<lparr>Item.Name := n,
             Item.Quantity := (case q of None \<Rightarrow> Item.Quantity it | Some v \<Rightarrow> Some v)\<rparr>)"
proof -
  from assms have a: "to_string (field d ''id'') = Some (Item.ID it)"
      "to_string_ptr (field d ''quantity'') = Some (Item.Quantity it)"
      "to_time (field d ''created_at'') = Some (CreatedAt it)"
    by (simp_all add: DataTo_Some_iff)
  show ?thesis
    unfolding DataTo_Some_iff field_set_fields
    using a by (cases q) simp_all
qed

lemma stored_quantity_Some_iff:
  "stored_quantity w ref \<noteq> None \<longleftrightarrow>
     (\<exists>d it. map_of (docs w) ref = Some d \<and> DataTo d = Some it \<and> Item.Quantity it \<noteq> None)"
  by (auto simp add: stored_quantity_def split: option.splits)

lemma stored_quantity_step:
  assumes "stored_quantity w ref \<noteq> None"
    and "ref \<in> fst ` set (docs (snd (invoke c w)))"
  shows "stored_quantity (snd (invoke c w)) ref \<noteq> None"
proof -
  let ?w' = "snd (invoke c w)"
  from assms(1) obtain d it where d: "map_of (docs w) ref = Some d"
    and it: "DataTo d = Some it" and q: "Item.Quantity it \<noteq> None"
    unfolding stored_quantity_Some_iff by blast
  from invoke_docs_cases [of c w]
  consider "docs ?w' = docs w"
    | new where "Item.ID new \<notin> fst ` set (docs w)"
        "docs ?w' = insort_key fst (Item.ID new, Item_fields new) (docs w)"
    | r n v where "docs ?w'
          = map (\<lambda>(k, d). if k = r
                   then (k, set_fields ((''name'', StringValue n)
                              # (case v of None \<Rightarrow> []
                                 | Some v \<Rightarrow> [(''quantity'', StringValue v)])) d)
                   else (k, d)) (docs w)"
    | r where "docs ?w' = filter (\<lambda>(k, d). k \<noteq> r) (docs w)"
    by blast
  then show ?thesis
  proof cases
    case 1
    with d it q show ?thesis
      unfolding stored_quantity_Some_iff by simp
  next
    case (2 new)
    from d have "ref \<in> fst ` set (docs w)"
      by (metis domI dom_map_of_conv_image_fst)
    with 2(1) have "ref \<noteq> Item.ID new"
      by force
    with 2(2) d have "map_of (docs ?w') ref = Some d"
      by (simp add: map_of_insort_other)
    with it q show ?thesis
      unfolding stored_quantity_Some_iff by blast
  next
    case (3 r n v)
    show ?thesis
    proof (cases "ref = r")
      case False
      with 3 d have "map_of (docs ?w') ref = Some d"
        by (simp add: map_of_map_upd)
      with it q show ?thesis
        unfolding stored_quantity_Some_iff by blast
    next
      case True
      let ?d' = "set_fields ((''name'', StringValue n)
                    # (case v of None \<Rightarrow> [] | Some v \<Rightarrow> [(''quantity'', StringValue v)])) d"
      let ?it' = "it\<lparr>Item.Name := n,
             Item.Quantity := (case v of None \<Rightarrow> Item.Quantity it | Some v \<Rightarrow> Some v)\<rparr>"
      from True 3 d have "map_of (docs ?w') ref = Some ?d'"
        by (simp add: map_of_map_upd)
      moreover have "DataTo ?d' = Some ?it'"
        by (rule DataTo_set_fields [OF it])
      moreover have "Item.Quantity ?it' \<noteq> None"
        using q by (cases v) simp_all
      ultimately show ?thesis
        unfolding stored_quantity_Some_iff by blast
    qed
  next
    case (4 r)
    with assms(2) have "ref \<noteq> r"
      by auto
    with 4 d have "map_of (docs ?w') ref = Some d"
      by (simp add: map_of_filter_other)
    with it q show ?thesis
      unfolding stored_quantity_Some_iff by blast
  qed
qed

lemma list_all_map_upd:
  assumes "list_all (\<lambda>(k, d). P k d) ds" and "\<And>k d. P k d \<Longrightarrow> P k (f d)"
  shows "list_all (\<lambda>(k, d). P k d) (map (\<lambda>(k, d). if k = r then (k, f d) else (k, d)) ds)"
  using assms by (induction ds) (auto split: if_splits)

lemma map_of_Item_fields_id:
  "map_of (Item_fields it) ''id'' = Some (StringValue (Item.ID it))"
  by (simp add: Item_fields_def)

lemma well_formed_step:
  assumes "well_formed (docs w)"
  shows "well_formed (docs (snd (invoke c w)))"
proof -
  let ?w' = "snd (invoke c w)"
  from invoke_docs_cases [of c w]
  consider "docs ?w' = docs w"
    | new where "Item.ID new \<notin> fst ` set (docs w)"
        "docs ?w' = insort_key fst (Item.ID new, Item_fields new) (docs w)"
    | r n v where "docs ?w'
          = map (\<lambda>(k, d). if k = r
                   then (k, set_fields ((''name'', StringValue n)
                              # (case v of None \<Rightarrow> []
                                 | Some v \<Rightarrow> [(''quantity'', StringValue v)])) d)
                   else (k, d)) (docs w)"
    | r where "docs ?w' = filter (\<lambda>(k, d). k \<noteq> r) (docs w)"
    by blast
  then show ?thesis
  proof cases
    case 1
    with assms show ?thesis by simp
  next
    case (2 new)
    with assms show ?thesis
      by (simp add: well_formed_def map_of_Item_fields_id distinct_insort_key
            list_all_iff set_insort_key)
  next
    case (3 r n v)
    have "map_of (set_fields ((''name'', StringValue n)
              # (case v of None \<Rightarrow> [] | Some v \<Rightarrow> [(''quantity'', StringValue v)])) d) ''id''
          = map_of d ''id''" for d
      by (cases v) (simp_all add: map_of_set_fields)
    then have "list_all (\<lambda>(ref, d). map_of d ''id'' = Some (StringValue ref)) (docs ?w')"
      unfolding 3 using assms
      by (intro list_all_map_upd) (simp_all add: well_formed_def)
    moreover have "distinct (map fst (docs ?w'))"
      unfolding 3 keys_map_upd using assms by (simp add: well_formed_def)
    ultimately show ?thesis
      by (simp add: well_formed_def)
  next
    case (4 r)
    with assms show ?thesis
      by (simp add: well_formed_filter)
  qed
qed

lemma well_formed_quantity:
  assumes "well_formed (docs w)" and "it \<in> set (decoded (docs w))"
  shows "stored_quantity w (Item.ID it) = Item.Quantity it"
proof -
  from assms(2) obtain ref d where m: "(ref, d) \<in> set (docs w)" and d: "DataTo d = Some it"
    by (auto simp add: decoded_set)
  from assms(1) m have "map_of d ''id'' = Some (StringValue ref)"
    by (auto simp add: well_formed_def list_all_iff)
  then have "field d ''id'' = Some (StringValue ref)"
    by (rule field_exact)
  with d have "Item.ID it = ref"
    by (simp add: DataTo_Some_iff to_string_def)
  moreover from assms(1) m have "map_of (docs w) ref = Some d"
    by (simp add: well_formed_def)
  ultimately show ?thesis
    using d by (simp add: stored_quantity_def)
qed

lemma stored_quantity_run:
  assumes "stored_quantity w ref \<noteq> None"
    and "\<forall>w' \<in> set (run calls w). ref \<in> fst ` set (docs w')"
  shows "\<forall>w' \<in> set (run calls w). stored_quantity w' ref \<noteq> None"
  using assms
proof (induction calls arbitrary: w)
  case Nil
  show ?case by simp
next
  case (Cons c cs)
  let ?w1 = "snd (invoke c w)"
  from Cons.prems(2) have p: "ref \<in> fst ` set (docs ?w1)"
    by simp
  have q1: "stored_quantity ?w1 ref \<noteq> None"
    by (rule stored_quantity_step [OF Cons.prems(1) p])
  from Cons.prems(2) have "\<forall>w' \<in> set (run cs ?w1). ref \<in> fst ` set (docs w')"
    by simp
  from Cons.IH [OF q1 this] q1 show ?case
    by simp
qed

lemma well_formed_run:
  assumes "well_formed (docs w)"
  shows "\<forall>w' \<in> set (run calls w). well_formed (docs w')"
  using assms
proof (induction calls arbitrary: w)
  case Nil
  show ?case by simp
next
  case (Cons c cs)
  have "well_formed (docs (snd (invoke c w)))"
    by (rule well_formed_step [OF Cons.prems])
  with Cons.IH [OF this] show ?case
    by simp
qed


text \<open>The collection stays in the store's listing order, by document name.\<close>

lemma listing_order_step:
  assumes "sorted (map fst (docs w))"
  shows "sorted (map fst (docs (snd (invoke c w))))"
proof -
  let ?w' = "snd (invoke c w)"
  from invoke_docs_cases [of c w]
  consider "docs ?w' = docs w"
    | new where "docs ?w' = insort_key fst (Item.ID new, Item_fields new) (docs w)"
    | r n v where "docs ?w'
          = map (\<lambda>(k, d). if k = r
                   then (k, set_fields ((''name'', StringValue n)
                              # (case v of None \<Rightarrow> []
                                 | Some v \<Rightarrow> [(''quantity'', StringValue v)])) d)
                   else (k, d)) (docs w)"
    | r where "docs ?w' = filter (\<lambda>(k, d). k \<noteq> r) (docs w)"
    by blast
  then show ?thesis
  proof cases
    case 1
    with assms show ?thesis by simp
  next
    case (2 new)
    with assms show ?thesis by (simp add: sorted_insort_key)
  next
    case (3 r n v)
    with assms show ?thesis by (simp only: keys_map_upd)
  next
    case (4 r)
    with assms show ?thesis by (simp add: sorted_filter)
  qed
qed

lemma listing_order_run:
  assumes "sorted (map fst (docs w))"
  shows "\<forall>w' \<in> set (run calls w). sorted (map fst (docs w'))"
  using assms
proof (induction calls arbitrary: w)
  case Nil
  show ?case by simp
next
  case (Cons c cs)
  have "sorted (map fst (docs (snd (invoke c w))))"
    by (rule listing_order_step [OF Cons.prems])
  with Cons.IH [OF this] show ?case
    by simp
qed


section \<open>Creating an item\<close>




section \<open>Updating an item\<close>





section \<open>Updating an item that is not there\<close>




section \<open>Validation of the arguments\<close>

text \<open>
  Claim C5. When the argument \<open>name\<close> of \<open>upsert_item\<close> is missing, is not a string or
  is the empty string, the handler returns an error result with a fixed message and the
  world is exactly as before: no round trip to the store was made, no document changed
  and nothing was logged.
\<close>

theorem name_validation:
  assumes "\<forall>s. s \<noteq> [] \<longrightarrow> args ''name'' \<noteq> Some (String s)"
  shows "\<exists>m. upsert_item e args w = (NewToolResultError (Text m), w)"
proof (cases "as_string (args ''name'')")
  case None
  then show ?thesis by (simp add: upsert_item_def)
next
  case (Some s)
  then have "args ''name'' = Some (String s)"
    by (auto simp add: as_string_def split: option.splits any.splits)
  with assms have "s = []" by auto
  with Some show ?thesis
    by (simp add: upsert_item_def Let_def split: option.splits)
qed

theorem name_validation_witness:
  "(\<exists>m. upsert_item \<lparr>uuid_New = ''u2'', time_Now = 7\<rparr> [''id'' \<mapsto> String ''u1'']
          \<lparr>docs = [], outages = [True], logged = []\<rparr>
        = (NewToolResultError (Text m), \<lparr>docs = [], outages = [True], logged = []\<rparr>))
   \<and> (\<exists>m. upsert_item \<lparr>uuid_New = ''u2'', time_Now = 7\<rparr> [''name'' \<mapsto> Number 3]
          \<lparr>docs = [], outages = [True], logged = []\<rparr>
        = (NewToolResultError (Text m), \<lparr>docs = [], outages = [True], logged = []\<rparr>))
   \<and> (\<exists>m. upsert_item \<lparr>uuid_New = ''u2'', time_Now = 7\<rparr> [''name'' \<mapsto> String []]
          \<lparr>docs = [], outages = [True], logged = []\<rparr>
        = (NewToolResultError (Text m), \<lparr>docs = [], outages = [True], logged = []\<rparr>))"
  using
    name_validation [of "[''id'' \<mapsto> String ''u1'']" "\<lparr>uuid_New = ''u2'', time_Now = 7\<rparr>"
      "\<lparr>docs = [], outages = [True], logged = []\<rparr>"]
    name_validation [of "[''name'' \<mapsto> Number 3]" "\<lparr>uuid_New = ''u2'', time_Now = 7\<rparr>"
      "\<lparr>docs = [], outages = [True], logged = []\<rparr>"]
    name_validation [of "[''name'' \<mapsto> String []]" "\<lparr>uuid_New = ''u2'', time_Now = 7\<rparr>"
      "\<lparr>docs = [], outages = [True], logged = []\<rparr>"]
  by simp


section \<open>Empty strings at the boundary\<close>

text \<open>
  Claim C7. For \<open>upsert_item\<close>, an argument bag in which \<open>id\<close> is the empty string
  gives the same result and the same world as the bag without \<open>id\<close>, and likewise for
  \<open>quantity\<close>, whatever the other arguments, the environment and the world are.
\<close>

theorem empty_is_absent:
  "upsert_item e (args(''id'' \<mapsto> String [])) w = upsert_item e (args(''id'' := None)) w
   \<and> upsert_item e (args(''quantity'' \<mapsto> String [])) w
     = upsert_item e (args(''quantity'' := None)) w"
  by (simp add: upsert_item_def as_string_def Let_def cong: option.case_cong)


section \<open>Listing\<close>

text \<open>
  Claim C9. \<open>ListItems\<close> makes one round trip. If it fails, the result is the error
  wrapped as \<open>retrieve items: \<close>. If it succeeds, the result is never an error: it is
  the list of the documents that decode, in the order of the store, each document that
  does not decode being left out and reported by one warning naming its reference, in the
  same order. The collection itself is never changed by a listing. Every document is
  either listed or reported.
\<close>

theorem ListItems_skips_undecodable:
  "(fails w \<longrightarrow>
      ListItems w = (Inl (Errorf ''retrieve items: '' (Status Unavailable)), consumed w))
   \<and> (\<not> fails w \<longrightarrow>
        ListItems w
          = (Inr (decoded (docs w)),
             (consumed w)\<lparr>logged := logged w @ map WarnUnmarshal (undecodable (docs w))\<rparr>))
   \<and> docs (snd (ListItems w)) = docs w
   \<and> decoded (docs w)
       = map (\<lambda>(ref, d). the (DataTo d)) (filter (\<lambda>(ref, d). DataTo d \<noteq> None) (docs w))
   \<and> undecodable (docs w) = map fst (filter (\<lambda>(ref, d). DataTo d = None) (docs w))
   \<and> length (decoded (docs w)) + length (undecodable (docs w)) = length (docs w)"
proof (intro conjI impI)
  assume "fails w"
  then show "ListItems w = (Inl (Errorf ''retrieve items: '' (Status Unavailable)), consumed w)"
    by (simp add: ListItems_eq)
next
  assume "\<not> fails w"
  then show "ListItems w
          = (Inr (decoded (docs w)),
             (consumed w)\<lparr>logged := logged w @ map WarnUnmarshal (undecodable (docs w))\<rparr>)"
    by (simp add: ListItems_eq)
next
  show "docs (snd (ListItems w)) = docs w"
    by (simp add: ListItems_eq)
next
  show "decoded (docs w)
       = map (\<lambda>(ref, d). the (DataTo d)) (filter (\<lambda>(ref, d). DataTo d \<noteq> None) (docs w))"
    by (rule decoded_filter)
next
  show "undecodable (docs w) = map fst (filter (\<lambda>(ref, d). DataTo d = None) (docs w))"
    by (simp add: undecodable_def)
next
  show "length (decoded (docs w)) + length (undecodable (docs w)) = length (docs w)"
    by (rule decoded_length)
qed

theorem ListItems_skips_undecodable_witness:
  "ListItems \<lparr>docs = [(''u1'', [(''id'', StringValue ''u1''), (''name'', IntegerValue 3)]),
                       (''u2'', [(''id'', StringValue ''u2''), (''name'', StringValue ''eggs'')])],
              outages = [], logged = []\<rparr>
   = (Inr [\<lparr>Item.ID = ''u2'', Name = ''eggs'', Quantity = None, CreatedAt = 0\<rparr>],
      \<lparr>docs = [(''u1'', [(''id'', StringValue ''u1''), (''name'', IntegerValue 3)]),
               (''u2'', [(''id'', StringValue ''u2''), (''name'', StringValue ''eggs'')])],
       outages = [], logged = [WarnUnmarshal ''u1'']\<rparr>)
   \<and> ListItems \<lparr>docs = [(''u2'', [(''id'', StringValue ''u2'')])],
              outages = [True, False], logged = []\<rparr>
   = (Inl (Errorf ''retrieve items: '' (Status Unavailable)),
      \<lparr>docs = [(''u2'', [(''id'', StringValue ''u2'')])], outages = [False], logged = []\<rparr>)"
  using
    ListItems_skips_undecodable
      [of "\<lparr>docs = [(''u1'', [(''id'', StringValue ''u1''), (''name'', IntegerValue 3)]),
                       (''u2'', [(''id'', StringValue ''u2''), (''name'', StringValue ''eggs'')])],
              outages = [], logged = []\<rparr>", THEN conjunct2, THEN conjunct1]
    ListItems_skips_undecodable
      [of "\<lparr>docs = [(''u2'', [(''id'', StringValue ''u2'')])],
              outages = [True, False], logged = []\<rparr>", THEN conjunct1]
  by (simp add: fails_def consumed_def round_trip_def decoded_def undecodable_def DataTo_def field_def lower_def
        to_string_def to_string_ptr_def to_time_def)


section \<open>What a mutation returns\<close>

text \<open>
  Claim C4. Whenever \<open>UpsertItem\<close> or \<open>RemoveItem\<close> succeeds, its result is the
  result of \<open>ListItems\<close> run on the world left by the mutation (the create or update,
  or the delete): it is the full list of the items of the collection as the call leaves
  it, and any later listing of that collection returns the same list. Whenever the
  handlers \<open>upsert_item\<close> and \<open>remove_item\<close> return a text result, its payload is the
  JSON object with the single member \<open>items\<close> holding that full list.
\<close>

theorem mutation_returns_relisting:
  "(UpsertItem e input w = (Inr items, w') \<longrightarrow>
      (\<exists>wm. (\<exists>r d us. Create r d w = (Inr (), wm) \<or> Update r us w = (Inr (), wm))
          \<and> ListItems wm = (Inr items, w'))
    \<and> items = decoded (docs w')
    \<and> (\<forall>w''. docs w'' = docs w' \<and> \<not> fails w'' \<longrightarrow> fst (ListItems w'') = Inr items))
   \<and> (RemoveItem ref w = (Inr items, w') \<longrightarrow>
      (\<exists>wm. Delete ref w = (Inr (), wm) \<and> ListItems wm = (Inr items, w'))
    \<and> items = decoded (docs w')
    \<and> (\<forall>w''. docs w'' = docs w' \<and> \<not> fails w'' \<longrightarrow> fst (ListItems w'') = Inr items))
   \<and> (upsert_item e args w = (NewToolResultText payload, w') \<longrightarrow>
        payload = JObject [(''items'', JArray (map Item_json (decoded (docs w'))))])
   \<and> (remove_item args w = (NewToolResultText payload, w') \<longrightarrow>
        payload = JObject [(''items'', JArray (map Item_json (decoded (docs w'))))])"
proof (intro conjI impI)
  assume a: "UpsertItem e input w = (Inr items, w')"
  from UpsertItem_Inr [OF a] obtain wm
    where m: "\<exists>r d us. Create r d w = (Inr (), wm) \<or> Update r us w = (Inr (), wm)"
      and l: "ListItems wm = (Inr items, w')"
    by blast
  from m l show "\<exists>wm. (\<exists>r d us. Create r d w = (Inr (), wm) \<or> Update r us w = (Inr (), wm))
          \<and> ListItems wm = (Inr items, w')"
    by blast
  show i: "items = decoded (docs w')"
    by (rule ListItems_Inr(1) [OF l])
  show "\<forall>w''. docs w'' = docs w' \<and> \<not> fails w'' \<longrightarrow> fst (ListItems w'') = Inr items"
    unfolding i by (simp add: ListItems_again)
next
  assume a: "RemoveItem ref w = (Inr items, w')"
  from RemoveItem_Inr [OF a] obtain wm
    where m: "Delete ref w = (Inr (), wm)" and l: "ListItems wm = (Inr items, w')"
    by blast
  from m l show "\<exists>wm. Delete ref w = (Inr (), wm) \<and> ListItems wm = (Inr items, w')"
    by blast
  show i: "items = decoded (docs w')"
    by (rule ListItems_Inr(1) [OF l])
  show "\<forall>w''. docs w'' = docs w' \<and> \<not> fails w'' \<longrightarrow> fst (ListItems w'') = Inr items"
    unfolding i by (simp add: ListItems_again)
next
  assume "upsert_item e args w = (NewToolResultText payload, w')"
  from upsert_item_Text [OF this] obtain input' items'
    where u: "UpsertItem e input' w = (Inr items', w')"
      and p: "payload = Marshal \<lparr>Items = items'\<rparr>"
    by blast
  from UpsertItem_Inr [OF u] obtain wm where "ListItems wm = (Inr items', w')"
    by blast
  then have "items' = decoded (docs w')"
    by (rule ListItems_Inr(1))
  with p show "payload = JObject [(''items'', JArray (map Item_json (decoded (docs w'))))]"
    by (simp add: Marshal_def)
next
  assume "remove_item args w = (NewToolResultText payload, w')"
  from remove_item_Text [OF this] obtain ref' items'
    where u: "RemoveItem ref' w = (Inr items', w')"
      and p: "payload = Marshal \<lparr>Items = items'\<rparr>"
    by blast
  from RemoveItem_Inr [OF u] obtain wm where "ListItems wm = (Inr items', w')"
    by blast
  then have "items' = decoded (docs w')"
    by (rule ListItems_Inr(1))
  with p show "payload = JObject [(''items'', JArray (map Item_json (decoded (docs w'))))]"
    by (simp add: Marshal_def)
qed


theorem mutation_returns_relisting_witness:
  "fst (UpsertItem \<lparr>uuid_New = ''u2'', time_Now = 7\<rparr>
          \<lparr>ItemInput.ID = None, Name = ''eggs'', Quantity = None\<rparr>
          \<lparr>docs = [(''u1'', [(''id'', StringValue ''u1''), (''name'', StringValue ''milk'')])],
           outages = [], logged = []\<rparr>)
     = Inr (decoded (docs (snd (UpsertItem \<lparr>uuid_New = ''u2'', time_Now = 7\<rparr>
          \<lparr>ItemInput.ID = None, Name = ''eggs'', Quantity = None\<rparr>
          \<lparr>docs = [(''u1'', [(''id'', StringValue ''u1''), (''name'', StringValue ''milk'')])],
           outages = [], logged = []\<rparr>))))
   \<and> fst (RemoveItem ''u1''
          \<lparr>docs = [(''u1'', [(''id'', StringValue ''u1''), (''name'', StringValue ''milk'')])],
           outages = [], logged = []\<rparr>)
     = Inr (decoded (docs (snd (RemoveItem ''u1''
          \<lparr>docs = [(''u1'', [(''id'', StringValue ''u1''), (''name'', StringValue ''milk'')])],
           outages = [], logged = []\<rparr>))))
   \<and> fst (upsert_item \<lparr>uuid_New = ''u2'', time_Now = 7\<rparr> [''name'' \<mapsto> String ''eggs'']
          \<lparr>docs = [(''u1'', [(''id'', StringValue ''u1''), (''name'', StringValue ''milk'')])],
           outages = [], logged = []\<rparr>)
     = NewToolResultText (JObject [(''items'', JArray
         [JObject [(''id'', JString ''u1''), (''name'', JString ''milk''),
                   (''created_at'', JTime 0)],
          JObject [(''id'', JString ''u2''), (''name'', JString ''eggs''),
                   (''created_at'', JTime 7)]])])
   \<and> fst (remove_item [''id'' \<mapsto> String ''u1'']
          \<lparr>docs = [(''u1'', [(''id'', StringValue ''u1''), (''name'', StringValue ''milk'')])],
           outages = [], logged = []\<rparr>)
     = NewToolResultText (JObject [(''items'', JArray [])])"
proof -
  let ?w = "\<lparr>docs = [(''u1'', [(''id'', StringValue ''u1''), (''name'', StringValue ''milk'')])],
           outages = [], logged = []\<rparr>"
  let ?e = "\<lparr>uuid_New = ''u2'', time_Now = 7\<rparr>"
  let ?input = "\<lparr>ItemInput.ID = None, Name = ''eggs'', Quantity = None\<rparr>"
  let ?args = "[''name'' \<mapsto> String ''eggs'']"
  let ?rm = "[''id'' \<mapsto> String ''u1'']"
  note defs = UpsertItem_def RemoveItem_def Create_def Delete_def ListItems_def GetAll_def
    round_trip_def DataTo_def field_def lower_def Item_fields_def to_string_def to_string_ptr_def to_time_def
    Let_def
  have "\<exists>items w'. UpsertItem ?e ?input ?w = (Inr items, w')"
    by (simp add: defs)
  then obtain items1 w1 where 1: "UpsertItem ?e ?input ?w = (Inr items1, w1)"
    by blast
  have "\<exists>items w'. RemoveItem ''u1'' ?w = (Inr items, w')"
    by (simp add: defs)
  then obtain items2 w2 where 2: "RemoveItem ''u1'' ?w = (Inr items2, w2)"
    by blast
  have "\<exists>payload w'. upsert_item ?e ?args ?w = (NewToolResultText payload, w')"
    by (simp add: upsert_item_def as_string_def jsonResult_def defs)
  then obtain p3 w3 where 3: "upsert_item ?e ?args ?w = (NewToolResultText p3, w3)"
    by blast
  have "\<exists>payload w'. remove_item ?rm ?w = (NewToolResultText payload, w')"
    by (simp add: remove_item_def as_string_def jsonResult_def defs)
  then obtain p4 w4 where 4: "remove_item ?rm ?w = (NewToolResultText p4, w4)"
    by blast
  have d3: "decoded (docs (snd (upsert_item ?e ?args ?w)))
      = [\<lparr>Item.ID = ''u1'', Name = ''milk'', Quantity = None, CreatedAt = 0\<rparr>,
         \<lparr>Item.ID = ''u2'', Name = ''eggs'', Quantity = None, CreatedAt = 7\<rparr>]"
    by (simp add: upsert_item_def as_string_def jsonResult_def decoded_def defs)
  have d4: "decoded (docs (snd (remove_item ?rm ?w))) = []"
    by (simp add: remove_item_def as_string_def jsonResult_def decoded_def defs)
  from mutation_returns_relisting [where e = ?e and input = ?input and w = ?w
      and items = items1 and w' = w1, THEN conjunct1] 1
  have a: "items1 = decoded (docs w1)"
    by blast
  from mutation_returns_relisting [where w = ?w and items = items2 and w' = w2
      and ref = "''u1''", THEN conjunct2, THEN conjunct1] 2
  have b: "items2 = decoded (docs w2)"
    by blast
  from mutation_returns_relisting [where e = ?e and w = ?w and w' = w3 and args = ?args
      and payload = p3,
      THEN conjunct2, THEN conjunct2, THEN conjunct1] 3
  have c: "p3 = JObject [(''items'', JArray (map Item_json (decoded (docs w3))))]"
    by blast
  from mutation_returns_relisting [where w = ?w and w' = w4 and args = ?rm and payload = p4,
      THEN conjunct2, THEN conjunct2, THEN conjunct2] 4
  have d: "p4 = JObject [(''items'', JArray (map Item_json (decoded (docs w4))))]"
    by blast
  have w3: "w3 = snd (upsert_item ?e ?args ?w)" and w4: "w4 = snd (remove_item ?rm ?w)"
    unfolding 3 4 by simp_all
  have "fst (UpsertItem ?e ?input ?w) = Inr (decoded (docs (snd (UpsertItem ?e ?input ?w))))"
    unfolding 1 using a by simp
  moreover have "fst (RemoveItem ''u1'' ?w) = Inr (decoded (docs (snd (RemoveItem ''u1'' ?w))))"
    unfolding 2 using b by simp
  moreover have "fst (upsert_item ?e ?args ?w)
     = NewToolResultText (JObject [(''items'', JArray
         [JObject [(''id'', JString ''u1''), (''name'', JString ''milk''),
                   (''created_at'', JTime 0)],
          JObject [(''id'', JString ''u2''), (''name'', JString ''eggs''),
                   (''created_at'', JTime 7)]])])"
    using c unfolding w3 d3 by (simp add: 3 Item_json_def)
  moreover have "fst (remove_item ?rm ?w) = NewToolResultText (JObject [(''items'', JArray [])])"
    using d unfolding w4 d4 by (simp add: 4)
  ultimately show ?thesis
    by (intro conjI)
qed


section \<open>Removing an item\<close>





section \<open>Round trip of a created item\<close>

text \<open>
  Claim C6. Let \<open>upsert_item\<close> be called with a valid name and no usable \<open>id\<close>, on a
  store that answers and does not hold the generated identifier. The created item has the
  generated identifier, the submitted name, the submitted quantity (absent when empty or
  missing) and the time read at the start of the call. The document stored under the
  identifier is the encoding of that item, it decodes to that very item, and a later
  \<open>list_items\<close> on that collection returns a payload whose \<open>items\<close> hold the created
  item, equal in all four fields, beside exactly the items that were there before. When
  the re-listing of the call itself succeeded, the later \<open>list_items\<close> returns the same
  result as the \<open>upsert_item\<close> did. (Time stamps are taken in the resolution of the
  store; the position of the item in the list is the store's.)
\<close>

theorem created_item_round_trip:
  assumes "args ''name'' = Some (String name)" and "name \<noteq> []"
    and "non_empty (args ''id'') = None"
    and "created = \<lparr>Item.ID = uuid_New e, Name = name,
                     Quantity = non_empty (args ''quantity''), CreatedAt = time_Now e\<rparr>"
    and "\<not> fails w" and "uuid_New e \<notin> fst ` set (docs w)"
    and "w' = snd (upsert_item e args w)"
    and "docs w'' = docs w'" and "\<not> fails w''"
  shows "map_of (docs w') (uuid_New e) = Some (Item_fields created)
       \<and> DataTo (Item_fields created) = Some created
       \<and> (\<exists>items. fst (list_items w'')
                     = NewToolResultText (JObject [(''items'', JArray (map Item_json items))])
             \<and> created \<in> set items
             \<and> mset items = add_mset created (mset (decoded (docs w))))
       \<and> (\<not> fails (consumed w) \<longrightarrow> fst (upsert_item e args w) = fst (list_items w''))"
proof -
  let ?input = "\<lparr>ItemInput.ID = non_empty (args ''id''), Name = name,
                   Quantity = non_empty (args ''quantity'')\<rparr>"
  have n: "as_string (args ''name'') = Some name"
    by (simp add: assms(1) as_string_def)
  have c: "ItemInput.ID ?input = None \<or> ItemInput.ID ?input = Some []"
    by (simp add: assms(3))
  have u: "UpsertItem e ?input w
      = ListItems ((consumed w)\<lparr>docs :=
          insort_key fst (uuid_New e, Item_fields created) (docs w)\<rparr>)"
    using assms(5,6) by (simp add: UpsertItem_create_eq [OF c] Create_eq assms(4))
  have h: "upsert_item e args w
      = (case UpsertItem e ?input w of
           (Inl err, w') \<Rightarrow> (NewToolResultError (Sprintf ''failed to upsert item: '' err), w')
         | (Inr items, w') \<Rightarrow> (jsonResult \<lparr>Items = items\<rparr>, w'))"
    by (simp add: upsert_item_eq n assms(2))
  have d': "docs w' = insort_key fst (uuid_New e, Item_fields created) (docs w)"
    unfolding assms(7) h u by (simp add: ListItems_eq)
  have l: "list_items w'' = (jsonResult \<lparr>Items = decoded (docs w')\<rparr>,
      (consumed w'')\<lparr>logged := logged w'' @ map WarnUnmarshal (undecodable (docs w''))\<rparr>)"
    using assms(9)
    by (simp add: list_items_def ListItems_eq assms(8))
  have 1: "map_of (docs w') (uuid_New e) = Some (Item_fields created)"
    unfolding d' by (rule map_of_insort_new [OF assms(6)])
  have 2: "DataTo (Item_fields created) = Some created"
    by (rule DataTo_Item_fields)
  have m: "mset (decoded (docs w')) = add_mset created (mset (decoded (docs w)))"
    unfolding d' by (rule mset_decoded_insort [OF 2])
  then have "created \<in># mset (decoded (docs w'))"
    by simp
  then have i: "created \<in> set (decoded (docs w'))"
    by simp
  have 3: "\<exists>items. fst (list_items w'')
                     = NewToolResultText (JObject [(''items'', JArray (map Item_json items))])
             \<and> created \<in> set items
             \<and> mset items = add_mset created (mset (decoded (docs w)))"
    using m i by (intro exI [of _ "decoded (docs w')"]) (simp add: l jsonResult_def Marshal_def)
  have 4: "fst (upsert_item e args w) = fst (list_items w'')" if "\<not> fails (consumed w)"
    using that unfolding h u l d' by (simp add: ListItems_eq)
  from 1 2 3 4 show ?thesis
    by (intro conjI impI)
qed

theorem created_item_round_trip_witness:
  "fst (list_items (snd (upsert_item \<lparr>uuid_New = ''u2'', time_Now = 7\<rparr>
          [''name'' \<mapsto> String ''eggs'', ''id'' \<mapsto> String [], ''quantity'' \<mapsto> String ''12'']
          \<lparr>docs = [(''u1'', [(''id'', StringValue ''u1''), (''name'', StringValue ''milk'')])],
           outages = [], logged = []\<rparr>)))
   = fst (upsert_item \<lparr>uuid_New = ''u2'', time_Now = 7\<rparr>
          [''name'' \<mapsto> String ''eggs'', ''id'' \<mapsto> String [], ''quantity'' \<mapsto> String ''12'']
          \<lparr>docs = [(''u1'', [(''id'', StringValue ''u1''), (''name'', StringValue ''milk'')])],
           outages = [], logged = []\<rparr>)
   \<and> map_of (docs (snd (upsert_item \<lparr>uuid_New = ''u2'', time_Now = 7\<rparr>
          [''name'' \<mapsto> String ''eggs'', ''id'' \<mapsto> String [], ''quantity'' \<mapsto> String ''12'']
          \<lparr>docs = [(''u1'', [(''id'', StringValue ''u1''), (''name'', StringValue ''milk'')])],
           outages = [], logged = []\<rparr>))) ''u2''
     = Some [(''id'', StringValue ''u2''), (''name'', StringValue ''eggs''),
             (''quantity'', StringValue ''12''), (''created_at'', TimestampValue 7)]"
proof -
  let ?w = "\<lparr>docs = [(''u1'', [(''id'', StringValue ''u1''), (''name'', StringValue ''milk'')])],
           outages = [], logged = []\<rparr>"
  let ?e = "\<lparr>uuid_New = ''u2'', time_Now = 7\<rparr>"
  let ?args = "[''name'' \<mapsto> String ''eggs'', ''id'' \<mapsto> String [],
                ''quantity'' \<mapsto> String ''12'']"
  let ?w' = "snd (upsert_item ?e ?args ?w)"
  have h1: "?args ''name'' = Some (String ''eggs'')" and h2: "''eggs'' \<noteq> []"
    by simp_all
  have h3: "non_empty (?args ''id'') = None"
    by (simp add: non_empty_def as_string_def)
  have h5: "\<not> fails ?w" and h5b: "\<not> fails (consumed ?w)"
    by (simp_all add: fails_def consumed_def round_trip_def)
  have h6: "uuid_New ?e \<notin> fst ` set (docs ?w)"
    by simp
  have o: "outages ?w' = []"
    by (simp add: upsert_item_eq as_string_def non_empty_def UpsertItem_def Create_def
          ListItems_def GetAll_def round_trip_def Let_def split: prod.split sum.split)
  have h9: "\<not> fails ?w'"
    using o by (simp add: fails_def round_trip_def)
  note T = created_item_round_trip [OF h1 h2 h3 refl h5 h6 refl refl h9]
  have "fst (list_items ?w') = fst (upsert_item ?e ?args ?w)"
    using T [THEN conjunct2, THEN conjunct2, THEN conjunct2] h5b by simp
  moreover have "map_of (docs ?w') ''u2''
     = Some [(''id'', StringValue ''u2''), (''name'', StringValue ''eggs''),
             (''quantity'', StringValue ''12''), (''created_at'', TimestampValue 7)]"
    using T [THEN conjunct1] by (simp add: non_empty_def as_string_def Item_fields_def)
  ultimately show ?thesis
    by (rule conjI)
qed


section \<open>A stored quantity cannot be cleared\<close>

text \<open>
  Claim C10. Take any world in which the document under a reference reads as an item with
  a quantity, and any sequence of invocations of \<open>list_items\<close>, \<open>upsert_item\<close> and
  \<open>remove_item\<close>, with any arguments, generated identifiers, clock readings and outages.
  As long as a document stays under that reference after every invocation, it reads as an
  item with a quantity after every invocation. When the collection was written by this
  program alone, this is what listings show: every listed item with that \<open>ID\<close> has a
  quantity.
\<close>

theorem quantity_never_cleared:
  assumes "stored_quantity w ref \<noteq> None"
    and "\<forall>w' \<in> set (run calls w). ref \<in> fst ` set (docs w')"
  shows "\<forall>w' \<in> set (run calls w).
           stored_quantity w' ref \<noteq> None
         \<and> (well_formed (docs w) \<longrightarrow>
              (\<forall>it \<in> set (decoded (docs w')). Item.ID it = ref \<longrightarrow> Item.Quantity it \<noteq> None))"
proof (intro ballI conjI impI)
  fix w'
  assume w': "w' \<in> set (run calls w)"
  with stored_quantity_run [OF assms] show q: "stored_quantity w' ref \<noteq> None"
    by blast
  fix it
  assume "well_formed (docs w)" and it: "it \<in> set (decoded (docs w'))" and "Item.ID it = ref"
  with well_formed_run w' have "well_formed (docs w')"
    by blast
  from well_formed_quantity [OF this it] q \<open>Item.ID it = ref\<close>
  show "Item.Quantity it \<noteq> None"
    by simp
qed

theorem quantity_never_cleared_witness:
  "stored_quantity
     (last (run [call_upsert_item \<lparr>uuid_New = ''u2'', time_Now = 7\<rparr>
                   [''name'' \<mapsto> String ''soy milk'', ''id'' \<mapsto> String ''u1'',
                    ''quantity'' \<mapsto> String []],
                 call_list_items,
                 call_remove_item [''id'' \<mapsto> String ''u9'']]
        \<lparr>docs = [(''u1'', [(''id'', StringValue ''u1''), (''name'', StringValue ''milk''),
                           (''quantity'', StringValue ''2'')])],
         outages = [], logged = []\<rparr>)) ''u1'' \<noteq> None"
proof -
  let ?w = "\<lparr>docs = [(''u1'', [(''id'', StringValue ''u1''), (''name'', StringValue ''milk''),
                           (''quantity'', StringValue ''2'')])],
         outages = [], logged = []\<rparr>"
  let ?calls = "[call_upsert_item \<lparr>uuid_New = ''u2'', time_Now = 7\<rparr>
                   [''name'' \<mapsto> String ''soy milk'', ''id'' \<mapsto> String ''u1'',
                    ''quantity'' \<mapsto> String []],
                 call_list_items,
                 call_remove_item [''id'' \<mapsto> String ''u9'']]"
  let ?d = "[(''u1'', [(''id'', StringValue ''u1''), (''name'', StringValue ''soy milk''),
                      (''quantity'', StringValue ''2'')])]"
  have q: "stored_quantity ?w ''u1'' \<noteq> None"
    by (simp add: stored_quantity_def DataTo_def field_def lower_def to_string_def to_string_ptr_def to_time_def)
  have d: "map docs (run ?calls ?w) = [?d, ?d, ?d]"
    by (simp add: upsert_item_def remove_item_def list_items_def as_string_def
          UpsertItem_def RemoveItem_def Update_def Delete_def ListItems_def GetAll_def
          round_trip_def set_fields_def DataTo_def field_def lower_def to_string_def to_string_ptr_def to_time_def
          jsonResult_def Let_def)
  have "\<forall>ds \<in> set (map docs (run ?calls ?w)). ''u1'' \<in> fst ` set ds"
    unfolding d by simp
  then have r: "\<forall>w' \<in> set (run ?calls ?w). ''u1'' \<in> fst ` set (docs w')"
    by simp
  have "last (run ?calls ?w) \<in> set (run ?calls ?w)"
    by (rule last_in_set) simp
  with quantity_never_cleared [OF q r] show ?thesis
    by blast
qed

end
